theory Spec2Isabelle
  imports Complex_Main "HOL-Library.Word"
begin

section \<open>Data model\<close>

text \<open>
  JavaScript strings are sequences of UTF-16 code units; \<open>charCodeAt\<close> reads one of
  them, a number between 0 and 65535. Page text is modelled as such a sequence. The keys
  of the two maps of the service (the decimal rendering of a hash, and the constant
  \<open>'default_user'\<close>) are plain ASCII and are modelled as \<open>string\<close>.
\<close>

type_synonym jsstring = "16 word list"

definition js :: "string \<Rightarrow> jsstring" where
  "js s = map of_char s"

text \<open>
  Values whose type is only known at run time (what \<open>JSON.parse\<close> returns, and the
  fields that \<open>parseAIResponse\<close> copies from it without a check). Numbers are IEEE
  doubles in the source; they are modelled as reals, which is exact for the operations
  used on them here (comparison, \<open>Math.min\<close>, \<open>Math.max\<close>, and one division of a small
  integer by 10, whose rounding is monotone).
\<close>

datatype json =
    JNull
  | JBool bool
  | JNumber real
  | JString jsstring
  | JArray "json list"
  | JObject "(jsstring \<times> json) list"

text \<open>The interfaces \<open>ContentAnalysis\<close>, \<open>PageMetadata\<close>, \<open>FormField\<close>, \<open>FormData\<close>,
  \<open>ExtractedData\<close> (its \<open>timestamp\<close> is \<open>extracted_at\<close> here) and \<open>RateLimitEntry\<close>.
  The interface declares \<open>summary\<close> a string, \<open>sentiment\<close> one of three string literals
  and the three lists string arrays; at run time the fields hold whatever the producer
  put there, so they are typed \<open>json\<close>.\<close>

record ContentAnalysis =
  summary :: json
  sentiment :: json
  keyInsights :: "json list"
  confidence :: real
  actionableItems :: "json list"
  categories :: "json list"

record PageMetadata =
  platform :: jsstring
  contentType :: jsstring
  wordCount :: int
  hasInteractiveElements :: bool

record FormField =
  field_name :: jsstring
  field_type :: jsstring
  field_value :: jsstring
  field_label :: jsstring

record FormData =
  form_id :: jsstring
  action :: jsstring
  form_fields :: "FormField list"

record ExtractedData =
  title :: jsstring
  url :: jsstring
  mainContent :: jsstring
  forms :: "FormData list"
  metadata :: PageMetadata
  extracted_at :: int

record RateLimitEntry =
  timestamp :: int
  count :: int

text \<open>The value type of \<open>cache\<close>: \<open>{ data: ContentAnalysis; timestamp: number }\<close>.\<close>

record CacheEntry =
  c_data :: ContentAnalysis
  c_timestamp :: int

text \<open>The two private maps of class \<open>AIService\<close>.\<close>

record AIService =
  rateLimiter :: "string \<rightharpoonup> RateLimitEntry"
  cache :: "string \<rightharpoonup> CacheEntry"

text \<open>\<open>throw new Error(message)\<close>.\<close>

datatype error = Error string

definition RATE_LIMIT :: int where
  "RATE_LIMIT = 10"

definition CACHE_DURATION :: int where
  "CACHE_DURATION = 5 * 60 * 1000"

definition userKey :: string where
  "userKey = ''default_user''"

definition rate_limit_error :: error where
  "rate_limit_error = Error ''Rate limit exceeded. Please wait before making another request.''"

definition new_service :: AIService where
  "new_service = \<lparr>rateLimiter = Map.empty, cache = Map.empty\<rparr>"

section \<open>generateContentHash\<close>

text \<open>
  \<open>ToInt32\<close>: the value modulo \<open>2^32\<close>, read as two's complement. Both \<open>hash << 5\<close> and
  \<open>hash & hash\<close> apply it to their operands; the subtraction and the addition between
  them are on doubles and exact, the operands being below \<open>2^33\<close> in absolute value.
\<close>

definition to_int32 :: "int \<Rightarrow> int" where
  "to_int32 x = (x + 2 ^ 31) mod 2 ^ 32 - 2 ^ 31"

definition shl5 :: "int \<Rightarrow> int" where
  "shl5 h = to_int32 (to_int32 h * 32)"

definition hash_step :: "int \<Rightarrow> 16 word \<Rightarrow> int" where
  "hash_step h c = to_int32 (shl5 h - h + uint c)"

fun hash_loop :: "int \<Rightarrow> jsstring \<Rightarrow> int" where
  "hash_loop h [] = h"
| "hash_loop h (c # cs) = hash_loop (hash_step h c) cs"

text \<open>\<open>Number.prototype.toString\<close> on an integer: decimal digits, \<open>-\<close> before a negative one.\<close>

definition digit_char :: "nat \<Rightarrow> char" where
  "digit_char d = ''0123456789'' ! d"

fun nat_toString :: "nat \<Rightarrow> string" where
  "nat_toString n = (if n < 10 then [digit_char n] else nat_toString (n div 10) @ [digit_char (n mod 10)])"

definition int_toString :: "int \<Rightarrow> string" where
  "int_toString i = (if i < 0 then CHR ''-'' # nat_toString (nat (- i)) else nat_toString (nat i))"

definition generateContentHash :: "jsstring \<Rightarrow> string" where
  "generateContentHash content = int_toString (hash_loop 0 content)"

text \<open>The reference of the specification: \<open>hash = hash*31 + charCode\<close> on 32-bit machine
  integers, read as signed and rendered in decimal.\<close>

fun hash31 :: "32 word \<Rightarrow> jsstring \<Rightarrow> 32 word" where
  "hash31 h [] = h"
| "hash31 h (c # cs) = hash31 (h * 31 + ucast c) cs"

definition reference_hash :: "jsstring \<Rightarrow> string" where
  "reference_hash content = int_toString (sint (hash31 0 content))"

section \<open>checkRateLimit\<close>

text \<open>The sweep \<open>for (const [key, entry] of this.rateLimiter) if (entry.timestamp < windowStart) delete\<close>.\<close>

definition clean_old :: "int \<Rightarrow> (string \<rightharpoonup> RateLimitEntry) \<Rightarrow> (string \<rightharpoonup> RateLimitEntry)" where
  "clean_old windowStart rl =
     (\<lambda>key. case rl key of
              None \<Rightarrow> None
            | Some entry \<Rightarrow> if timestamp entry < windowStart then None else Some entry)"

text \<open>\<open>now\<close> is the reading of \<open>Date.now()\<close>; the result is the returned boolean and the map
  as the call leaves it.\<close>

definition checkRateLimit :: "int \<Rightarrow> (string \<rightharpoonup> RateLimitEntry) \<Rightarrow> bool \<times> (string \<rightharpoonup> RateLimitEntry)" where
  "checkRateLimit now rl =
     (let windowStart = now - 60000;
          rl1 = clean_old windowStart rl
      in case rl1 userKey of
           None \<Rightarrow> (True, rl1(userKey \<mapsto> \<lparr>timestamp = now, count = 1\<rparr>))
         | Some currentEntry \<Rightarrow>
             if count currentEntry \<ge> RATE_LIMIT then (False, rl1)
             else (True, rl1(userKey \<mapsto> currentEntry\<lparr>count := count currentEntry + 1\<rparr>)))"

section \<open>handleContentAnalysis\<close>

text \<open>
  One call, run to completion. \<open>analyse\<close> is the delegated analysis
  (\<open>simulateAIAnalysis\<close>): it returns a result or throws. The three readings of
  \<open>Date.now()\<close> are parameters: \<open>t_lookup\<close> at the cache check, \<open>t_limit\<close> inside
  \<open>checkRateLimit\<close>, \<open>t_store\<close> when the result is cached after the \<open>await\<close>.
\<close>

definition cache_lookup :: "int \<Rightarrow> (string \<rightharpoonup> CacheEntry) \<Rightarrow> string \<Rightarrow> ContentAnalysis option" where
  "cache_lookup now c contentHash =
     (case c contentHash of
        None \<Rightarrow> None
      | Some cached \<Rightarrow> if now - c_timestamp cached < CACHE_DURATION then Some (c_data cached) else None)"

definition handleContentAnalysis ::
  "(ExtractedData \<Rightarrow> error + ContentAnalysis) \<Rightarrow> int \<Rightarrow> int \<Rightarrow> int \<Rightarrow> ExtractedData \<Rightarrow> AIService
     \<Rightarrow> (error + ContentAnalysis) \<times> AIService" where
  "handleContentAnalysis analyse t_lookup t_limit t_store d s =
     (let contentHash = generateContentHash (mainContent d) in
      case cache_lookup t_lookup (cache s) contentHash of
        Some hit \<Rightarrow> (Inr hit, s)
      | None \<Rightarrow>
         (case checkRateLimit t_limit (rateLimiter s) of
            (False, rl) \<Rightarrow> (Inl rate_limit_error, s\<lparr>rateLimiter := rl\<rparr>)
          | (True, rl) \<Rightarrow>
             (case analyse d of
                Inl e \<Rightarrow> (Inl e, s\<lparr>rateLimiter := rl\<rparr>)
              | Inr analysis \<Rightarrow>
                 (Inr analysis,
                  \<lparr>rateLimiter = rl,
                   cache = (cache s)(contentHash \<mapsto> \<lparr>c_data = analysis, c_timestamp = t_store\<rparr>)\<rparr>))))"

text \<open>A sequence of calls, each run to completion before the next one starts (the
  message handler of \<open>setupMessageHandlers\<close> with no two calls in flight). A call carries
  the page data, the three clock readings and the behaviour of the backend during it.\<close>

record Call =
  payload :: ExtractedData
  at_lookup :: int
  at_limit :: int
  at_store :: int
  backend :: "ExtractedData \<Rightarrow> error + ContentAnalysis"

definition hash_of :: "Call \<Rightarrow> string" where
  "hash_of c = generateContentHash (mainContent (payload c))"

definition handle_call :: "Call \<Rightarrow> AIService \<Rightarrow> (error + ContentAnalysis) \<times> AIService" where
  "handle_call c s =
     handleContentAnalysis (backend c) (at_lookup c) (at_limit c) (at_store c) (payload c) s"

fun run :: "Call list \<Rightarrow> AIService \<Rightarrow> (error + ContentAnalysis) list \<times> AIService" where
  "run [] s = ([], s)"
| "run (c # cs) s =
     (let (r, s1) = handle_call c s;
          (rs, s2) = run cs s1
      in (r # rs, s2))"

section \<open>simulateAIAnalysis (the keyword simulation)\<close>

text \<open>
  \<open>(content.match(new RegExp(word, 'g')) || []).length\<close> for a pattern without
  metacharacters: the matches are found from left to right and do not overlap; an empty
  match moves on by one code unit.
\<close>

function count_matches :: "jsstring \<Rightarrow> jsstring \<Rightarrow> nat" where
  "count_matches word [] = (if word = [] then 1 else 0)"
| "count_matches word (c # cs) =
     (if take (length word) (c # cs) = word
      then Suc (count_matches word (drop (length word - 1) cs))
      else count_matches word cs)"
  by pat_completeness auto
termination
  by (relation "measure (\<lambda>(word, content). length content)") auto

definition positive_keywords :: "jsstring list" where
  "positive_keywords = map js [''good'', ''great'', ''excellent'', ''amazing'', ''successful'',
     ''growth'', ''improve'', ''better'']"

definition negative_keywords :: "jsstring list" where
  "negative_keywords = map js [''bad'', ''terrible'', ''awful'', ''failed'', ''error'',
     ''problem'', ''issue'', ''decrease'']"

definition keyword_count :: "jsstring list \<Rightarrow> jsstring \<Rightarrow> nat" where
  "keyword_count keywords content = fold (\<lambda>word n. n + count_matches word content) keywords 0"

text \<open>\<open>content.split(/\s+/).length\<close>: one more than the number of maximal runs of white space.\<close>

definition is_space :: "16 word \<Rightarrow> bool" where
  "is_space c \<longleftrightarrow>
     c \<in> {0x9, 0xA, 0xB, 0xC, 0xD, 0x20, 0xA0, 0x1680, 0x2028, 0x2029, 0x202F, 0x205F, 0x3000, 0xFEFF}
     \<or> (0x2000 \<le> c \<and> c \<le> 0x200A)"

fun space_runs :: "bool \<Rightarrow> jsstring \<Rightarrow> nat" where
  "space_runs in_run [] = 0"
| "space_runs in_run (c # cs) =
     (if is_space c then (if in_run then 0 else 1) + space_runs True cs
      else space_runs False cs)"

definition split_length :: "jsstring \<Rightarrow> nat" where
  "split_length content = Suc (space_runs False content)"

text \<open>
  \<open>String.prototype.toLowerCase\<close> and the four methods that build the text fields
  (\<open>generateSummary\<close>, \<open>extractKeyInsights\<close>, \<open>generateActionableItems\<close>,
  \<open>categorizeContent\<close>) are parameters of the model: they produce strings, and nothing
  below depends on which.
\<close>

record TextMethods =
  toLowerCase :: "jsstring \<Rightarrow> jsstring"
  generateSummary :: "ExtractedData \<Rightarrow> nat \<Rightarrow> jsstring"
  extractKeyInsights :: "ExtractedData \<Rightarrow> jsstring list"
  generateActionableItems :: "ExtractedData \<Rightarrow> jsstring list"
  categorizeContent :: "ExtractedData \<Rightarrow> jsstring list"

definition choose_sentiment :: "nat \<Rightarrow> nat \<Rightarrow> jsstring" where
  "choose_sentiment positiveCount negativeCount =
     (if positiveCount > negativeCount then js ''positive''
      else if negativeCount > positiveCount then js ''negative''
      else js ''neutral'')"

definition simulateAIAnalysis :: "TextMethods \<Rightarrow> ExtractedData \<Rightarrow> ContentAnalysis" where
  "simulateAIAnalysis m d =
     (let content = toLowerCase m (mainContent d);
          wordCount = split_length content;
          positiveCount = keyword_count positive_keywords content;
          negativeCount = keyword_count negative_keywords content
      in \<lparr>summary = JString (generateSummary m d wordCount),
          sentiment = JString (choose_sentiment positiveCount negativeCount),
          keyInsights = map JString (extractKeyInsights m d),
          confidence = min (9 / 10) (max (3 / 10) (real (positiveCount + negativeCount) / 10)),
          actionableItems = map JString (generateActionableItems m d),
          categories = map JString (categorizeContent m d)\<rparr>)"

section \<open>parseAIResponse (the direct API paths)\<close>

text \<open>\<open>response.match(/\{[\s\S]*\}/)\<close>: from the first \<open>{\<close> to the last \<open>}\<close> after it.\<close>

definition match_braces :: "jsstring \<Rightarrow> jsstring option" where
  "match_braces response =
     (case dropWhile (\<lambda>c. c \<noteq> 0x7B) response of
        [] \<Rightarrow> None
      | opening # rest \<Rightarrow>
         (case rev (dropWhile (\<lambda>c. c \<noteq> 0x7D) (rev rest)) of
            [] \<Rightarrow> None
          | body \<Rightarrow> Some (opening # body)))"

text \<open>Property access: \<open>None\<close> is \<open>undefined\<close>. The operand of \<open>||\<close> is tested for truthiness.\<close>

fun property :: "json \<Rightarrow> string \<Rightarrow> json option" where
  "property (JObject props) name = map_of props (js name)"
| "property _ name = None"

fun truthy :: "json \<Rightarrow> bool" where
  "truthy JNull = False"
| "truthy (JBool b) = b"
| "truthy (JNumber x) = (x \<noteq> 0)"
| "truthy (JString s) = (s \<noteq> [])"
| "truthy (JArray xs) = True"
| "truthy (JObject props) = True"

definition or_default :: "json option \<Rightarrow> json \<Rightarrow> json" where
  "or_default v dflt = (case v of None \<Rightarrow> dflt | Some x \<Rightarrow> if truthy x then x else dflt)"

definition array_or :: "json option \<Rightarrow> json list \<Rightarrow> json list" where
  "array_or v dflt = (case v of Some (JArray xs) \<Rightarrow> xs | _ \<Rightarrow> dflt)"

definition number_or :: "json option \<Rightarrow> real \<Rightarrow> real" where
  "number_or v dflt = (case v of Some (JNumber x) \<Rightarrow> x | _ \<Rightarrow> dflt)"

definition fallback_analysis :: ContentAnalysis where
  "fallback_analysis =
     \<lparr>summary = JString (js ''AI analysis completed but response format was unexpected''),
      sentiment = JString (js ''neutral''),
      keyInsights = [JString (js ''Content analysis performed'')],
      confidence = 3 / 10,
      actionableItems = [JString (js ''Review AI service configuration'')],
      categories = [JString (js ''General Content'')]\<rparr>"

text \<open>\<open>JSON_parse\<close> is the built-in \<open>JSON.parse\<close>, a parameter: \<open>None\<close> when it throws.
  Reading a property of \<open>null\<close> throws too; both land in the \<open>catch\<close> and so in the
  fallback.\<close>

definition parseAIResponse :: "(jsstring \<Rightarrow> json option) \<Rightarrow> jsstring \<Rightarrow> ContentAnalysis" where
  "parseAIResponse JSON_parse response =
     (case match_braces response of
        None \<Rightarrow> fallback_analysis
      | Some jsonMatch \<Rightarrow>
         (case JSON_parse jsonMatch of
            None \<Rightarrow> fallback_analysis
          | Some JNull \<Rightarrow> fallback_analysis
          | Some parsed \<Rightarrow>
             \<lparr>summary = or_default (property parsed ''summary'') (JString (js ''Analysis completed'')),
              sentiment = or_default (property parsed ''sentiment'') (JString (js ''neutral'')),
              keyInsights = array_or (property parsed ''keyInsights'') [JString (js ''Analysis performed'')],
              confidence = number_or (property parsed ''confidence'') (1 / 2),
              actionableItems = array_or (property parsed ''actionableItems'') [JString (js ''Review results'')],
              categories = array_or (property parsed ''categories'') [JString (js ''General'')]\<rparr>))"

text \<open>What the interface and the specification promise of a result.\<close>

definition sentiments :: "json set" where
  "sentiments = {JString (js ''positive''), JString (js ''negative''), JString (js ''neutral'')}"

definition well_formed :: "ContentAnalysis \<Rightarrow> bool" where
  "well_formed r \<longleftrightarrow> 0 \<le> confidence r \<and> confidence r \<le> 1 \<and> sentiment r \<in> sentiments"

section \<open>simulateAIAnalysis of the second service (backend selection)\<close>

text \<open>
  The second \<open>AIService\<close> has the same \<open>handleContentAnalysis\<close>, \<open>checkRateLimit\<close> and
  \<open>generateContentHash\<close>; its \<open>simulateAIAnalysis\<close> first looks at the environment and may
  call a remote service instead of running the simulation. \<open>None\<close> is an undefined
  variable. What the network does is a parameter: \<open>secure_backend\<close> is the outcome of
  \<open>callSecureBackend\<close> (the parsed body of the response, returned as it is, or a thrown
  error); \<open>openai_content\<close> and \<open>anthropic_content\<close> are the message text that
  \<open>callOpenAIDirect\<close> and \<open>callAnthropicDirect\<close> hand to \<open>parseAIResponse\<close>, or a thrown
  error.
\<close>

record Environment =
  isDevelopment :: bool
  openaiKey :: "jsstring option"
  anthropicKey :: "jsstring option"
  backendUrl :: "jsstring option"

record Network =
  secure_backend :: "ExtractedData \<Rightarrow> jsstring \<Rightarrow> error + ContentAnalysis"
  openai_content :: "ExtractedData \<Rightarrow> jsstring \<Rightarrow> error + jsstring"
  anthropic_content :: "ExtractedData \<Rightarrow> jsstring \<Rightarrow> error + jsstring"

definition usable :: "jsstring option \<Rightarrow> jsstring \<Rightarrow> bool" where
  "usable v placeholder \<longleftrightarrow> (case v of None \<Rightarrow> False | Some k \<Rightarrow> k \<noteq> [] \<and> k \<noteq> placeholder)"

definition parsed_reply :: "(jsstring \<Rightarrow> json option) \<Rightarrow> error + jsstring \<Rightarrow> error + ContentAnalysis" where
  "parsed_reply JSON_parse reply =
     (case reply of Inl e \<Rightarrow> Inl e | Inr content \<Rightarrow> Inr (parseAIResponse JSON_parse content))"

definition selectBackend ::
  "Environment \<Rightarrow> Network \<Rightarrow> (jsstring \<Rightarrow> json option) \<Rightarrow> TextMethods
     \<Rightarrow> ExtractedData \<Rightarrow> error + ContentAnalysis" where
  "selectBackend env net JSON_parse m d =
     (if \<not> isDevelopment env \<and> usable (backendUrl env) []
      then secure_backend net d (the (backendUrl env))
      else if isDevelopment env \<and> usable (openaiKey env) (js ''sk-your-openai-api-key-here'')
      then parsed_reply JSON_parse (openai_content net d (the (openaiKey env)))
      else if isDevelopment env \<and> usable (anthropicKey env) (js ''your-anthropic-api-key-here'')
      then parsed_reply JSON_parse (anthropic_content net d (the (anthropicKey env)))
      else Inr (simulateAIAnalysis m d))"

text \<open>The simulation as a backend: the only one of the first service, and the one the
  second service falls back to.\<close>

definition simulated :: "TextMethods \<Rightarrow> ExtractedData \<Rightarrow> error + ContentAnalysis" where
  "simulated m d = Inr (simulateAIAnalysis m d)"

section \<open>Invariants\<close>

definition limiter_bounded :: "(string \<rightharpoonup> RateLimitEntry) \<Rightarrow> bool" where
  "limiter_bounded rl \<longleftrightarrow> (\<forall>key e. rl key = Some e \<longrightarrow> count e \<le> RATE_LIMIT)"

definition clamped :: "ContentAnalysis \<Rightarrow> bool" where
  "clamped r \<longleftrightarrow> 3 / 10 \<le> confidence r \<and> confidence r \<le> 9 / 10 \<and> sentiment r \<in> sentiments"

definition cache_clamped :: "(string \<rightharpoonup> CacheEntry) \<Rightarrow> bool" where
  "cache_clamped c \<longleftrightarrow> (\<forall>h e. c h = Some e \<longrightarrow> clamped (c_data e))"

section \<open>Example inputs\<close>

definition page :: "jsstring \<Rightarrow> ExtractedData" where
  "page text =
     \<lparr>title = [], url = [], mainContent = text, forms = [],
      metadata = \<lparr>platform = js ''unknown'', contentType = js ''page'', wordCount = 0,
                  hasInteractiveElements = False\<rparr>,
      extracted_at = 0\<rparr>"

definition answering :: "ContentAnalysis \<Rightarrow> ExtractedData \<Rightarrow> error + ContentAnalysis" where
  "answering r d = Inr r"

definition failing :: "ExtractedData \<Rightarrow> error + ContentAnalysis" where
  "failing d = Inl (Error ''Backend error: 503'')"

definition other_analysis :: ContentAnalysis where
  "other_analysis = fallback_analysis\<lparr>confidence := 1 / 2\<rparr>"

text \<open>The text \<open>hi\<close> hashes to 3329. \<open>cached_state\<close> holds a result for it, stored at time 0;
  \<open>saturated\<close> holds a window opened at time 0 that has admitted ten requests.\<close>

definition cached_state :: AIService where
  "cached_state =
     \<lparr>rateLimiter = Map.empty,
      cache = [''3329'' \<mapsto> \<lparr>c_data = fallback_analysis, c_timestamp = 0\<rparr>]\<rparr>"

definition saturated :: AIService where
  "saturated = \<lparr>rateLimiter = [userKey \<mapsto> \<lparr>timestamp = 0, count = 10\<rparr>], cache = Map.empty\<rparr>"

text \<open>The texts \<open>Aa\<close> and \<open>BB\<close> both hash to 2112. \<open>after_Aa\<close> is a new service after one
  call for \<open>Aa\<close> at time 0 whose result was stored at time 1500.\<close>

definition after_Aa :: AIService where
  "after_Aa =
     \<lparr>rateLimiter = [userKey \<mapsto> \<lparr>timestamp = 0, count = 1\<rparr>],
      cache = [''2112'' \<mapsto> \<lparr>c_data = other_analysis, c_timestamp = 1500\<rparr>]\<rparr>"

definition call_at :: "int \<Rightarrow> string \<Rightarrow> Call" where
  "call_at t text =
     \<lparr>payload = page (js text), at_lookup = t, at_limit = t, at_store = t + 1500,
      backend = answering fallback_analysis\<rparr>"

definition eleven_calls :: "Call list" where
  "eleven_calls =
     [call_at 0 ''a'', call_at 2000 ''b'', call_at 4000 ''c'', call_at 6000 ''d'', call_at 8000 ''e'',
      call_at 10000 ''f'', call_at 12000 ''g'', call_at 14000 ''h'', call_at 16000 ''i'',
      call_at 18000 ''j'', call_at 60000 ''k'']"

definition plain_methods :: TextMethods where
  "plain_methods =
     \<lparr>toLowerCase = (\<lambda>s. s), generateSummary = (\<lambda>d n. []), extractKeyInsights = (\<lambda>d. []),
      generateActionableItems = (\<lambda>d. []), categorizeContent = (\<lambda>d. [])\<rparr>"

definition simulated_call :: Call where
  "simulated_call =
     \<lparr>payload = page (js ''good good bad''), at_lookup = 0, at_limit = 0, at_store = 1500,
      backend = simulated plain_methods\<rparr>"

definition development :: Environment where
  "development =
     \<lparr>isDevelopment = True, openaiKey = Some (js ''sk-test''), anthropicKey = None, backendUrl = None\<rparr>"

definition replying :: "jsstring \<Rightarrow> Network" where
  "replying content =
     \<lparr>secure_backend = (\<lambda>d u. Inl (Error ''Backend error: 503'')),
      openai_content = (\<lambda>d k. Inr content),
      anthropic_content = (\<lambda>d k. Inr content)\<rparr>"

text \<open>An answer of the AI service whose JSON is valid and whose values are out of range, and
  the value of \<open>JSON.parse\<close> on it.\<close>

definition api_reply :: jsstring where
  \<open>api_reply = js ''{"sentiment": "mixed", "confidence": 5}''\<close>

definition parse_reply :: "jsstring \<Rightarrow> json option" where
  "parse_reply text =
     (if text = api_reply
      then Some (JObject [(js ''sentiment'', JString (js ''mixed'')), (js ''confidence'', JNumber 5)])
      else None)"

section \<open>The hash is the 31-multiplier hash on 32-bit integers\<close>

lemma to_int32_sint: "to_int32 x = sint (word_of_int x :: 32 word)"
  by (simp add: to_int32_def sint_sbintrunc' signed_take_bit_eq_take_bit_shift take_bit_eq_mod)

lemma word_of_to_int32: "(word_of_int (to_int32 x) :: 32 word) = word_of_int x"
  by (simp add: to_int32_sint)

lemma word_of_shl5: "(word_of_int (shl5 (sint w)) :: 32 word) = w * 32"
  by (simp add: shl5_def word_of_to_int32)

lemma times_32_minus: "(w :: 32 word) * 32 - w + x = w * 31 + x"
proof -
  have "w * 32 = w * 31 + w" by (simp add: algebra_simps)
  then show ?thesis by (simp only: add_diff_cancel_right')
qed

lemma hash_step_word: "hash_step (sint (w :: 32 word)) c = sint (w * 31 + ucast c)"
proof -
  have "(word_of_int (shl5 (sint w) - sint w + uint c) :: 32 word)
          = word_of_int (shl5 (sint w)) - word_of_int (sint w) + word_of_int (uint c)"
    by simp
  also have "\<dots> = w * 32 - w + ucast c"
    by (simp only: word_of_shl5 ucast_eq of_int_sint scast_id)
  also have "\<dots> = w * 31 + ucast c"
    by (rule times_32_minus)
  finally show ?thesis
    unfolding hash_step_def to_int32_sint by (rule arg_cong)
qed

lemma hash_loop_word: "hash_loop (sint (w :: 32 word)) cs = sint (hash31 w cs)"
  by (induction cs arbitrary: w) (simp_all add: hash_step_word)

text \<open>
  C7: \<open>generateContentHash\<close> is a function of its input string alone, and it equals the
  reference definition: fold the text, one code unit at a time, by
  \<open>hash = hash*31 + charCode\<close> truncated to a 32-bit signed integer, and render the result
  in decimal. The left side is the source's \<open>((hash << 5) - hash) + char\<close> followed by
  \<open>hash & hash\<close>, on JavaScript numbers.
\<close>

theorem generateContentHash_is_reference_hash:
  "generateContentHash content = reference_hash content"
  using hash_loop_word [of 0 content] by (simp add: generateContentHash_def reference_hash_def)

lemmas sample_defs = page_def js_def generateContentHash_def hash_step_def shl5_def to_int32_def
  int_toString_def digit_char_def

lemma hash_hi: "generateContentHash (js ''hi'') = ''3329''"
  by (simp add: sample_defs)

lemma hash_Aa: "generateContentHash (js ''Aa'') = ''2112''"
  by (simp add: sample_defs)

lemma hash_BB: "generateContentHash (js ''BB'') = ''2112''"
  by (simp add: sample_defs)

section \<open>One call\<close>

subsection \<open>The three outcomes of \<open>checkRateLimit\<close>\<close>

lemma clean_old_keeps:
  "rl key = Some e \<Longrightarrow> \<not> timestamp e < windowStart \<Longrightarrow> clean_old windowStart rl key = Some e"
  by (simp add: clean_old_def)

lemma clean_old_drops:
  "rl key = Some e \<Longrightarrow> timestamp e < windowStart \<Longrightarrow> clean_old windowStart rl key = None"
  by (simp add: clean_old_def)

lemma clean_old_Some:
  "clean_old windowStart rl key = Some e \<Longrightarrow> rl key = Some e \<and> \<not> timestamp e < windowStart"
  by (simp add: clean_old_def split: option.splits if_splits)

lemma checkRateLimit_new_window:
  assumes "clean_old (now - 60000) rl userKey = None"
  shows "checkRateLimit now rl =
           (True, (clean_old (now - 60000) rl)(userKey \<mapsto> \<lparr>timestamp = now, count = 1\<rparr>))"
  using assms by (simp add: checkRateLimit_def)

lemma checkRateLimit_increment:
  assumes "rl userKey = Some e" and "\<not> timestamp e < now - 60000" and "count e < RATE_LIMIT"
  shows "checkRateLimit now rl =
           (True, (clean_old (now - 60000) rl)(userKey \<mapsto> e\<lparr>count := count e + 1\<rparr>))"
  using assms clean_old_keeps [of rl userKey e "now - 60000"] by (simp add: checkRateLimit_def)

lemma checkRateLimit_reject:
  assumes "rl userKey = Some e" and "\<not> timestamp e < now - 60000" and "RATE_LIMIT \<le> count e"
  shows "checkRateLimit now rl = (False, clean_old (now - 60000) rl)"
  using assms clean_old_keeps [of rl userKey e "now - 60000"] by (simp add: checkRateLimit_def)

subsection \<open>The four paths through \<open>handleContentAnalysis\<close>\<close>

lemma cache_lookup_miss_iff:
  "cache_lookup now c h = None \<longleftrightarrow>
     (c h = None \<or> (\<exists>cached. c h = Some cached \<and> CACHE_DURATION \<le> now - c_timestamp cached))"
  by (auto simp: cache_lookup_def split: option.splits)

lemma cache_lookup_other:
  "h' \<noteq> h \<Longrightarrow> cache_lookup now (c(h \<mapsto> e)) h' = cache_lookup now c h'"
  by (simp add: cache_lookup_def)

lemma handle_hit:
  assumes "cache_lookup t_lookup (cache s) (generateContentHash (mainContent d)) = Some r"
  shows "handleContentAnalysis analyse t_lookup t_limit t_store d s = (Inr r, s)"
  using assms by (simp add: handleContentAnalysis_def)

lemma handle_miss_rejected:
  assumes "cache_lookup t_lookup (cache s) (generateContentHash (mainContent d)) = None"
    and "checkRateLimit t_limit (rateLimiter s) = (False, rl)"
  shows "handleContentAnalysis analyse t_lookup t_limit t_store d s =
           (Inl rate_limit_error, s\<lparr>rateLimiter := rl\<rparr>)"
  using assms by (simp add: handleContentAnalysis_def)

lemma handle_miss_failed:
  assumes "cache_lookup t_lookup (cache s) (generateContentHash (mainContent d)) = None"
    and "checkRateLimit t_limit (rateLimiter s) = (True, rl)"
    and "analyse d = Inl e"
  shows "handleContentAnalysis analyse t_lookup t_limit t_store d s = (Inl e, s\<lparr>rateLimiter := rl\<rparr>)"
  using assms by (simp add: handleContentAnalysis_def)

lemma handle_miss_stored:
  assumes "cache_lookup t_lookup (cache s) (generateContentHash (mainContent d)) = None"
    and "checkRateLimit t_limit (rateLimiter s) = (True, rl)"
    and "analyse d = Inr a"
  shows "handleContentAnalysis analyse t_lookup t_limit t_store d s =
           (Inr a, \<lparr>rateLimiter = rl,
                    cache = (cache s)(generateContentHash (mainContent d) \<mapsto>
                              \<lparr>c_data = a, c_timestamp = t_store\<rparr>)\<rparr>)"
  using assms by (simp add: handleContentAnalysis_def)

text \<open>
  C1: when the content hash of a call has a cache entry with
  \<open>now - timestamp < CACHE_DURATION\<close>, the call returns the stored analysis unchanged and
  leaves the whole service state as it was: no limiter entry is added, incremented or
  swept. The equation holds for every backend and every content of the limiter, so
  neither is consulted.
\<close>

theorem cache_hit_leaves_limiter:
  assumes "cache s (generateContentHash (mainContent d)) = Some cached"
    and "t_lookup - c_timestamp cached < CACHE_DURATION"
  shows "handleContentAnalysis analyse t_lookup t_limit t_store d s = (Inr (c_data cached), s)"
  by (rule handle_hit) (simp add: cache_lookup_def assms)

theorem cache_hit_leaves_limiter_witness:
  "handleContentAnalysis failing 299999 299999 301499 (page (js ''hi'')) cached_state
     = (Inr fallback_analysis, cached_state)"
  using cache_hit_leaves_limiter [of cached_state "page (js ''hi'')"
      "\<lparr>c_data = fallback_analysis, c_timestamp = 0\<rparr>" 299999 failing 299999 301499]
  by (simp add: cached_state_def hash_hi page_def CACHE_DURATION_def)

text \<open>
  C4: on a cache miss at time \<open>now\<close>, when the limiter holds an entry for the caller whose
  timestamp is more than 60000 ms before \<open>now\<close>, whatever its count, \<open>checkRateLimit\<close>
  admits the request, the call returns what the backend returns, and the entry is
  replaced by the fresh window \<open>{timestamp: now, count: 1}\<close>. With \<open>count = 10\<close> this is the
  first call after a saturated window has run out.
\<close>

theorem stale_window_is_replaced:
  assumes "cache_lookup t_lookup (cache s) (generateContentHash (mainContent d)) = None"
    and "rateLimiter s userKey = Some e"
    and "timestamp e < now - 60000"
  shows "fst (checkRateLimit now (rateLimiter s))
       \<and> fst (handleContentAnalysis analyse t_lookup now t_store d s) = analyse d
       \<and> rateLimiter (snd (handleContentAnalysis analyse t_lookup now t_store d s)) userKey
           = Some \<lparr>timestamp = now, count = 1\<rparr>"
proof -
  have gone: "clean_old (now - 60000) (rateLimiter s) userKey = None"
    using assms(2,3) by (rule clean_old_drops [where rl = "rateLimiter s"])
  note adm = checkRateLimit_new_window [OF gone]
  show ?thesis
  proof (cases "analyse d")
    case (Inl err)
    from handle_miss_failed [where analyse = analyse, OF assms(1) adm Inl] adm Inl
    show ?thesis by simp
  next
    case (Inr a)
    from handle_miss_stored [where analyse = analyse, OF assms(1) adm Inr] adm Inr
    show ?thesis by simp
  qed
qed

theorem stale_window_is_replaced_witness:
  "fst (checkRateLimit 60001 (rateLimiter saturated))
   \<and> fst (handleContentAnalysis (answering fallback_analysis) 60001 60001 61501 (page (js ''hi'')) saturated)
       = Inr fallback_analysis
   \<and> rateLimiter (snd (handleContentAnalysis (answering fallback_analysis) 60001 60001 61501
        (page (js ''hi'')) saturated)) userKey = Some \<lparr>timestamp = 60001, count = 1\<rparr>"
  using stale_window_is_replaced [of 60001 saturated "page (js ''hi'')" "\<lparr>timestamp = 0, count = 10\<rparr>"
      60001 "answering fallback_analysis" 61501]
  by (simp add: saturated_def cache_lookup_def answering_def)

text \<open>The window is closed on the right: exactly 60000 ms after it opened, a saturated
  window still rejects.\<close>

lemma saturated_window_at_60000:
  "fst (handleContentAnalysis (answering fallback_analysis) 60000 60000 61500 (page (js ''hi'')) saturated)
     = Inl rate_limit_error"
  by (simp add: saturated_def handleContentAnalysis_def cache_lookup_def checkRateLimit_def
        clean_old_def RATE_LIMIT_def)

text \<open>
  C5: when the cache entry for the content hash is absent, or present with
  \<open>now - timestamp >= CACHE_DURATION\<close>, the call is a miss: the limiter decides; when it
  rejects, the call throws the rate-limit error; when it admits and the backend returns
  \<open>a\<close>, the call returns \<open>a\<close> and the cache maps the hash to \<open>a\<close> with the time of the
  store, in place of whatever entry was there.
\<close>

theorem cache_miss_stores_result:
  assumes "cache s (generateContentHash (mainContent d)) = None
           \<or> (\<exists>cached. cache s (generateContentHash (mainContent d)) = Some cached
                 \<and> CACHE_DURATION \<le> t_lookup - c_timestamp cached)"
    and "analyse d = Inr a"
  shows "handleContentAnalysis analyse t_lookup t_limit t_store d s =
           (case checkRateLimit t_limit (rateLimiter s) of
              (False, rl) \<Rightarrow> (Inl rate_limit_error, s\<lparr>rateLimiter := rl\<rparr>)
            | (True, rl) \<Rightarrow>
                (Inr a, \<lparr>rateLimiter = rl,
                         cache = (cache s)(generateContentHash (mainContent d) \<mapsto>
                                   \<lparr>c_data = a, c_timestamp = t_store\<rparr>)\<rparr>))"
proof -
  have miss: "cache_lookup t_lookup (cache s) (generateContentHash (mainContent d)) = None"
    using assms(1) by (simp add: cache_lookup_miss_iff)
  obtain ok rl where chk: "checkRateLimit t_limit (rateLimiter s) = (ok, rl)"
    by (cases "checkRateLimit t_limit (rateLimiter s)")
  show ?thesis
  proof (cases ok)
    case True
    with chk handle_miss_stored [where analyse = analyse, OF miss _ assms(2)] show ?thesis by simp
  next
    case False
    with chk handle_miss_rejected [OF miss] show ?thesis by simp
  qed
qed

theorem cache_miss_stores_result_witness:
  "handleContentAnalysis (answering other_analysis) 300000 300000 301500 (page (js ''hi'')) cached_state
     = (Inr other_analysis,
        \<lparr>rateLimiter = [userKey \<mapsto> \<lparr>timestamp = 300000, count = 1\<rparr>],
         cache = [''3329'' \<mapsto> \<lparr>c_data = other_analysis, c_timestamp = 301500\<rparr>]\<rparr>)"
proof -
  have expired: "cache cached_state (generateContentHash (mainContent (page (js ''hi'')))) = None
           \<or> (\<exists>cached. cache cached_state (generateContentHash (mainContent (page (js ''hi'')))) = Some cached
                 \<and> CACHE_DURATION \<le> 300000 - c_timestamp cached)"
    by (simp add: cached_state_def page_def hash_hi CACHE_DURATION_def)
  have ok: "answering other_analysis (page (js ''hi'')) = Inr other_analysis"
    by (simp add: answering_def)
  have chk: "checkRateLimit 300000 (rateLimiter cached_state)
               = (True, [userKey \<mapsto> \<lparr>timestamp = 300000, count = 1\<rparr>])"
    by (simp add: checkRateLimit_def clean_old_def cached_state_def)
  from cache_miss_stores_result [where analyse = "answering other_analysis", OF expired ok, of 300000 301500]
  show ?thesis
    by (simp add: chk) (simp add: cached_state_def page_def hash_hi)
qed

text \<open>
  C6: when a miss meets an active (not stale) window entry with \<open>count >= RATE_LIMIT\<close>, the
  call throws the rate-limit error whatever the backend would have done, the cache is
  unchanged, and the window entry keeps its count and its timestamp.
\<close>

theorem rejection_changes_nothing:
  assumes "cache_lookup t_lookup (cache s) (generateContentHash (mainContent d)) = None"
    and "rateLimiter s userKey = Some e"
    and "\<not> timestamp e < t_limit - 60000"
    and "RATE_LIMIT \<le> count e"
  shows "fst (handleContentAnalysis analyse t_lookup t_limit t_store d s) = Inl rate_limit_error
       \<and> cache (snd (handleContentAnalysis analyse t_lookup t_limit t_store d s)) = cache s
       \<and> rateLimiter (snd (handleContentAnalysis analyse t_lookup t_limit t_store d s)) userKey = Some e"
proof -
  note rej = checkRateLimit_reject [where rl = "rateLimiter s", OF assms(2,3,4)]
  from handle_miss_rejected [OF assms(1) rej] clean_old_keeps [where rl = "rateLimiter s", OF assms(2,3)]
  show ?thesis by simp
qed

theorem rejection_changes_nothing_witness:
  "fst (handleContentAnalysis (answering fallback_analysis) 60000 60000 61500 (page (js ''hi'')) saturated)
     = Inl rate_limit_error
   \<and> cache (snd (handleContentAnalysis (answering fallback_analysis) 60000 60000 61500 (page (js ''hi'')) saturated))
     = cache saturated
   \<and> rateLimiter (snd (handleContentAnalysis (answering fallback_analysis) 60000 60000 61500
        (page (js ''hi'')) saturated)) userKey = Some \<lparr>timestamp = 0, count = 10\<rparr>"
  using rejection_changes_nothing [of 60000 saturated "page (js ''hi'')" "\<lparr>timestamp = 0, count = 10\<rparr>"
      60000 "answering fallback_analysis" 61500]
  by (simp add: saturated_def cache_lookup_def RATE_LIMIT_def)

text \<open>
  C8: when the limiter has admitted a miss and the backend then throws, the call throws
  the same error, the cache is unchanged, and the limiter keeps the admission: the
  caller's entry is the fresh window with count 1, or the active window with its count
  raised by one.
\<close>

theorem failed_backend_keeps_admission:
  assumes "cache_lookup t_lookup (cache s) (generateContentHash (mainContent d)) = None"
    and "checkRateLimit t_limit (rateLimiter s) = (True, rl)"
    and "analyse d = Inl err"
  shows "fst (handleContentAnalysis analyse t_lookup t_limit t_store d s) = Inl err
       \<and> cache (snd (handleContentAnalysis analyse t_lookup t_limit t_store d s)) = cache s
       \<and> rateLimiter (snd (handleContentAnalysis analyse t_lookup t_limit t_store d s)) = rl
       \<and> rl userKey =
           Some (case clean_old (t_limit - 60000) (rateLimiter s) userKey of
                   None \<Rightarrow> \<lparr>timestamp = t_limit, count = 1\<rparr>
                 | Some e \<Rightarrow> e\<lparr>count := count e + 1\<rparr>)"
proof -
  have "rl userKey =
           Some (case clean_old (t_limit - 60000) (rateLimiter s) userKey of
                   None \<Rightarrow> \<lparr>timestamp = t_limit, count = 1\<rparr>
                 | Some e \<Rightarrow> e\<lparr>count := count e + 1\<rparr>)"
    using assms(2) by (auto simp: checkRateLimit_def Let_def split: option.splits if_splits)
  with handle_miss_failed [where analyse = analyse, OF assms] show ?thesis by simp
qed

theorem failed_backend_keeps_admission_witness:
  "fst (handleContentAnalysis failing 0 0 1500 (page (js ''hi'')) new_service) = Inl (Error ''Backend error: 503'')
   \<and> cache (snd (handleContentAnalysis failing 0 0 1500 (page (js ''hi'')) new_service)) = cache new_service
   \<and> rateLimiter (snd (handleContentAnalysis failing 0 0 1500 (page (js ''hi'')) new_service)) userKey
       = Some \<lparr>timestamp = 0, count = 1\<rparr>"
proof -
  have miss: "cache_lookup 0 (cache new_service) (generateContentHash (mainContent (page (js ''hi'')))) = None"
    by (simp add: cache_lookup_def new_service_def)
  have chk: "checkRateLimit 0 (rateLimiter new_service) = (True, [userKey \<mapsto> \<lparr>timestamp = 0, count = 1\<rparr>])"
    by (simp add: checkRateLimit_def clean_old_def new_service_def)
  have bad: "failing (page (js ''hi'')) = Inl (Error ''Backend error: 503'')"
    by (simp add: failing_def)
  from failed_backend_keeps_admission [where analyse = failing, OF miss chk bad, of 1500]
  show ?thesis by simp
qed

subsection \<open>Hash collisions\<close>

text \<open>A call that returns an analysis leaves it in the cache under the content hash: it
  was there already (a hit), or the call has just stored it, with the time of the store.\<close>

lemma returned_is_stored:
  assumes "handleContentAnalysis analyse t1 t2 t3 d s = (Inr r, s1)"
  shows "\<exists>stored. cache s1 (generateContentHash (mainContent d)) = Some stored \<and> c_data stored = r"
  using assms
proof (cases "cache_lookup t1 (cache s) (generateContentHash (mainContent d))")
  case (Some hit)
  from handle_hit [OF Some, where analyse = analyse and t_limit = t2 and t_store = t3] assms
  have "hit = r" "s1 = s" by simp_all
  with Some show ?thesis
    by (auto simp: cache_lookup_def split: option.splits if_splits)
next
  case None
  with assms show ?thesis
    by (auto simp: handleContentAnalysis_def split: prod.splits bool.splits sum.splits)
qed

lemma fresh_result_is_stored_at_t3:
  assumes "cache_lookup t1 (cache s) (generateContentHash (mainContent d)) = None"
    and "handleContentAnalysis analyse t1 t2 t3 d s = (Inr r, s1)"
  shows "cache s1 (generateContentHash (mainContent d)) = Some \<lparr>c_data = r, c_timestamp = t3\<rparr>"
  using assms
  by (auto simp: handleContentAnalysis_def split: prod.splits bool.splits sum.splits)

lemma first_Aa:
  "handleContentAnalysis (answering other_analysis) 0 0 1500 (page (js ''Aa'')) new_service
     = (Inr other_analysis, after_Aa)"
  by (simp add: handleContentAnalysis_def cache_lookup_def new_service_def checkRateLimit_def
        clean_old_def answering_def after_Aa_def page_def hash_Aa)

text \<open>
  C10: let \<open>a\<close> and \<open>b\<close> be two inputs with the same content hash, equal or not. After a
  successful call for \<open>a\<close> that returned \<open>r\<close>, the cache entry under that hash holds \<open>r\<close>,
  and a call for \<open>b\<close> whose cache check comes less than \<open>CACHE_DURATION\<close> after the
  timestamp of that entry returns \<open>r\<close> and leaves the state, the limiter included, as it
  was. When the call for \<open>a\<close> ran the analysis, that timestamp is the time of its store
  (\<open>fresh_result_is_stored_at_t3\<close>). The texts \<open>Aa\<close> and \<open>BB\<close> are such a pair.
\<close>

theorem collision_is_cache_hit:
  assumes "generateContentHash (mainContent a) = generateContentHash (mainContent b)"
    and "handleContentAnalysis analyse t1 t2 t3 a s = (Inr r, s1)"
    and "cache s1 (generateContentHash (mainContent a)) = Some stored"
    and "t_lookup - c_timestamp stored < CACHE_DURATION"
  shows "c_data stored = r
       \<and> handleContentAnalysis analyse' t_lookup t_limit t_store b s1 = (Inr r, s1)"
proof -
  have r: "c_data stored = r"
    using returned_is_stored [OF assms(2)] assms(3) by auto
  have "cache_lookup t_lookup (cache s1) (generateContentHash (mainContent b)) = Some r"
    using assms(1,3,4) r by (simp add: cache_lookup_def)
  then have "handleContentAnalysis analyse' t_lookup t_limit t_store b s1 = (Inr r, s1)"
    by (rule handle_hit)
  with r show ?thesis by simp
qed

theorem collision_is_cache_hit_witness:
  "js ''Aa'' \<noteq> js ''BB''
   \<and> handleContentAnalysis (answering other_analysis) 0 0 1500 (page (js ''Aa'')) new_service
       = (Inr other_analysis, after_Aa)
   \<and> handleContentAnalysis failing 301499 301499 302999 (page (js ''BB'')) after_Aa
       = (Inr other_analysis, after_Aa)"
proof -
  have same: "generateContentHash (mainContent (page (js ''Aa'')))
                = generateContentHash (mainContent (page (js ''BB'')))"
    by (simp add: page_def hash_Aa hash_BB)
  have stored: "cache after_Aa (generateContentHash (mainContent (page (js ''Aa''))))
                  = Some \<lparr>c_data = other_analysis, c_timestamp = 1500\<rparr>"
    by (simp add: after_Aa_def page_def hash_Aa)
  have soon: "301499 - c_timestamp \<lparr>c_data = other_analysis, c_timestamp = 1500\<rparr> < CACHE_DURATION"
    by (simp add: CACHE_DURATION_def)
  have differ: "js ''Aa'' \<noteq> js ''BB''"
    by (simp add: js_def)
  from collision_is_cache_hit [OF same first_Aa stored soon, of failing 301499 302999] differ first_Aa
  show ?thesis by simp
qed

section \<open>Sequences of calls\<close>

lemma handle_call_first:
  assumes "rateLimiter s = Map.empty"
    and "cache_lookup (at_lookup c) (cache s) (hash_of c) = None"
    and "backend c (payload c) = Inr a"
  shows "handle_call c s =
           (Inr a,
            \<lparr>rateLimiter = (clean_old (at_limit c - 60000) (rateLimiter s))
                              (userKey \<mapsto> \<lparr>timestamp = at_limit c, count = 1\<rparr>),
             cache = (cache s)(hash_of c \<mapsto> \<lparr>c_data = a, c_timestamp = at_store c\<rparr>)\<rparr>)"
proof -
  have "clean_old (at_limit c - 60000) (rateLimiter s) userKey = None"
    using assms(1) by (simp add: clean_old_def)
  note chk = checkRateLimit_new_window [OF this]
  show ?thesis
    unfolding handle_call_def
    using handle_miss_stored [where analyse = "backend c" and d = "payload c", OF _ chk assms(3)] assms(2)
    by (simp add: hash_of_def)
qed

lemma handle_call_admitted:
  assumes "rateLimiter s userKey = Some \<lparr>timestamp = T, count = k\<rparr>"
    and "at_limit c \<le> T + 60000"
    and "k < RATE_LIMIT"
    and "cache_lookup (at_lookup c) (cache s) (hash_of c) = None"
    and "backend c (payload c) = Inr a"
  shows "handle_call c s =
           (Inr a,
            \<lparr>rateLimiter = (clean_old (at_limit c - 60000) (rateLimiter s))
                              (userKey \<mapsto> \<lparr>timestamp = T, count = k + 1\<rparr>),
             cache = (cache s)(hash_of c \<mapsto> \<lparr>c_data = a, c_timestamp = at_store c\<rparr>)\<rparr>)"
proof -
  have "checkRateLimit (at_limit c) (rateLimiter s) =
          (True, (clean_old (at_limit c - 60000) (rateLimiter s))
                   (userKey \<mapsto> \<lparr>timestamp = T, count = k\<rparr>
                                 \<lparr>count := count \<lparr>timestamp = T, count = k\<rparr> + 1\<rparr>))"
    using assms(2,3)
    by (intro checkRateLimit_increment [where rl = "rateLimiter s", OF assms(1)]) simp_all
  then have chk: "checkRateLimit (at_limit c) (rateLimiter s) =
          (True, (clean_old (at_limit c - 60000) (rateLimiter s))
                   (userKey \<mapsto> \<lparr>timestamp = T, count = k + 1\<rparr>))"
    by simp
  show ?thesis
    unfolding handle_call_def
    using handle_miss_stored [where analyse = "backend c" and d = "payload c", OF _ chk assms(5)] assms(4)
    by (simp add: hash_of_def)
qed

lemma handle_call_rejected:
  assumes "rateLimiter s userKey = Some \<lparr>timestamp = T, count = k\<rparr>"
    and "at_limit c \<le> T + 60000"
    and "RATE_LIMIT \<le> k"
    and "cache_lookup (at_lookup c) (cache s) (hash_of c) = None"
  shows "handle_call c s =
           (Inl rate_limit_error, s\<lparr>rateLimiter := clean_old (at_limit c - 60000) (rateLimiter s)\<rparr>)"
proof -
  have chk: "checkRateLimit (at_limit c) (rateLimiter s) =
          (False, clean_old (at_limit c - 60000) (rateLimiter s))"
    using assms(2,3)
    by (intro checkRateLimit_reject [where rl = "rateLimiter s", OF assms(1)]) simp_all
  show ?thesis
    unfolding handle_call_def
    using handle_miss_rejected [where d = "payload c", OF _ chk] assms(4)
    by (simp add: hash_of_def)
qed

lemma later_hashes_differ:
  assumes "distinct (map hash_of (c # cs))"
  shows "\<forall>c'\<in>set cs. hash_of c' \<noteq> hash_of c"
proof
  fix c'
  assume "c' \<in> set cs"
  then have "hash_of c' \<in> set (map hash_of cs)" by simp
  moreover have "hash_of c \<notin> set (map hash_of cs)" using assms by simp
  ultimately show "hash_of c' \<noteq> hash_of c" by metis
qed

text \<open>Inside one window that has admitted \<open>k\<close> requests, misses on distinct contents are
  admitted until the count reaches \<open>RATE_LIMIT\<close>, and rejected from then on.\<close>

lemma run_in_window:
  assumes "rateLimiter s userKey = Some \<lparr>timestamp = T, count = k\<rparr>"
    and "\<forall>c\<in>set cs. at_limit c \<le> T + 60000"
    and "distinct (map hash_of cs)"
    and "\<forall>c\<in>set cs. cache_lookup (at_lookup c) (cache s) (hash_of c) = None"
    and "\<forall>c\<in>set cs. \<exists>a. backend c (payload c) = Inr a"
  shows "fst (run cs s) =
           map (\<lambda>c. backend c (payload c)) (take (nat (RATE_LIMIT - k)) cs)
           @ replicate (length cs - nat (RATE_LIMIT - k)) (Inl rate_limit_error)"
  using assms
proof (induction cs arbitrary: s k)
  case Nil
  then show ?case by simp
next
  case (Cons c cs)
  have win: "at_limit c \<le> T + 60000"
    and miss: "cache_lookup (at_lookup c) (cache s) (hash_of c) = None"
    using Cons.prems by simp_all
  obtain a where ok: "backend c (payload c) = Inr a"
    using Cons.prems(5) by auto
  have fresh: "\<forall>c'\<in>set cs. hash_of c' \<noteq> hash_of c"
    using Cons.prems(3) by (rule later_hashes_differ)
  show ?case
  proof (cases "k < RATE_LIMIT")
    case True
    let ?s1 = "\<lparr>rateLimiter = (clean_old (at_limit c - 60000) (rateLimiter s))
                              (userKey \<mapsto> \<lparr>timestamp = T, count = k + 1\<rparr>),
                cache = (cache s)(hash_of c \<mapsto> \<lparr>c_data = a, c_timestamp = at_store c\<rparr>)\<rparr>"
    have step: "handle_call c s = (Inr a, ?s1)"
      using Cons.prems(1) win True miss ok by (rule handle_call_admitted)
    have rest: "fst (run cs ?s1) =
           map (\<lambda>c. backend c (payload c)) (take (nat (RATE_LIMIT - (k + 1))) cs)
           @ replicate (length cs - nat (RATE_LIMIT - (k + 1))) (Inl rate_limit_error)"
    proof (rule Cons.IH)
      show "rateLimiter ?s1 userKey = Some \<lparr>timestamp = T, count = k + 1\<rparr>" by simp
      show "\<forall>c\<in>set cs. at_limit c \<le> T + 60000" using Cons.prems(2) by simp
      show "distinct (map hash_of cs)" using Cons.prems(3) by simp
      show "\<forall>c'\<in>set cs. cache_lookup (at_lookup c') (cache ?s1) (hash_of c') = None"
        using Cons.prems(4) fresh by (simp add: cache_lookup_other)
      show "\<forall>c\<in>set cs. \<exists>a. backend c (payload c) = Inr a" using Cons.prems(5) by simp
    qed
    obtain n where n: "nat (RATE_LIMIT - k) = Suc n" "nat (RATE_LIMIT - (k + 1)) = n"
      using True by (cases "nat (RATE_LIMIT - k)") (simp_all add: nat_diff_distrib)
    show ?thesis
      using step rest ok n by (simp add: split_beta)
  next
    case False
    let ?s1 = "s\<lparr>rateLimiter := clean_old (at_limit c - 60000) (rateLimiter s)\<rparr>"
    have step: "handle_call c s = (Inl rate_limit_error, ?s1)"
      using Cons.prems(1) win _ miss by (rule handle_call_rejected) (use False in simp)
    have kept: "rateLimiter ?s1 userKey = Some \<lparr>timestamp = T, count = k\<rparr>"
      using clean_old_keeps [where rl = "rateLimiter s", OF Cons.prems(1)] win by simp
    have rest: "fst (run cs ?s1) =
           map (\<lambda>c. backend c (payload c)) (take (nat (RATE_LIMIT - k)) cs)
           @ replicate (length cs - nat (RATE_LIMIT - k)) (Inl rate_limit_error)"
    proof (rule Cons.IH)
      show "rateLimiter ?s1 userKey = Some \<lparr>timestamp = T, count = k\<rparr>" by (rule kept)
      show "\<forall>c\<in>set cs. at_limit c \<le> T + 60000" using Cons.prems(2) by simp
      show "distinct (map hash_of cs)" using Cons.prems(3) by simp
      show "\<forall>c'\<in>set cs. cache_lookup (at_lookup c') (cache ?s1) (hash_of c') = None"
        using Cons.prems(4) by simp
      show "\<forall>c\<in>set cs. \<exists>a. backend c (payload c) = Inr a" using Cons.prems(5) by simp
    qed
    have z: "nat (RATE_LIMIT - k) = 0" using False by simp
    show ?thesis
      using step rest by (simp add: split_beta z)
  qed
qed

lemma eleven_hashes:
  "map hash_of eleven_calls =
     [''97'', ''98'', ''99'', ''100'', ''101'', ''102'', ''103'', ''104'', ''105'', ''106'', ''107'']"
  by (simp add: eleven_calls_def call_at_def hash_of_def sample_defs)

text \<open>
  C2: start from a service whose rate limiter is empty and run eleven calls, one after
  the other, on contents with pairwise distinct hashes, none of them answered by the
  cache, every limiter check at most 60000 ms after the first one, the backend
  succeeding. The first ten calls return the backend's results and the eleventh throws
  the rate-limit error.
\<close>

theorem eleventh_distinct_call_is_rejected:
  assumes "length cs = 11"
    and "rateLimiter s = Map.empty"
    and "distinct (map hash_of cs)"
    and "\<forall>c\<in>set cs. cache_lookup (at_lookup c) (cache s) (hash_of c) = None"
    and "\<forall>c\<in>set cs. at_limit c \<le> at_limit (hd cs) + 60000"
    and "\<forall>c\<in>set cs. \<exists>a. backend c (payload c) = Inr a"
  shows "fst (run cs s) = map (\<lambda>c. backend c (payload c)) (take 10 cs) @ [Inl rate_limit_error]"
proof -
  obtain c rest where cs: "cs = c # rest" and len: "length rest = 10"
    using assms(1) by (cases cs) simp_all
  obtain a where ok: "backend c (payload c) = Inr a"
    using assms(6) cs by auto
  have miss: "cache_lookup (at_lookup c) (cache s) (hash_of c) = None"
    using assms(4) cs by simp
  let ?s1 = "\<lparr>rateLimiter = (clean_old (at_limit c - 60000) (rateLimiter s))
                              (userKey \<mapsto> \<lparr>timestamp = at_limit c, count = 1\<rparr>),
              cache = (cache s)(hash_of c \<mapsto> \<lparr>c_data = a, c_timestamp = at_store c\<rparr>)\<rparr>"
  have step: "handle_call c s = (Inr a, ?s1)"
    using assms(2) miss ok by (rule handle_call_first)
  have fresh: "\<forall>c'\<in>set rest. hash_of c' \<noteq> hash_of c"
    using assms(3) unfolding cs by (rule later_hashes_differ)
  have tail: "fst (run rest ?s1) =
           map (\<lambda>c. backend c (payload c)) (take (nat (RATE_LIMIT - 1)) rest)
           @ replicate (length rest - nat (RATE_LIMIT - 1)) (Inl rate_limit_error)"
  proof (rule run_in_window)
    show "rateLimiter ?s1 userKey = Some \<lparr>timestamp = at_limit c, count = 1\<rparr>" by simp
    show "\<forall>c'\<in>set rest. at_limit c' \<le> at_limit c + 60000" using assms(5) cs by simp
    show "distinct (map hash_of rest)" using assms(3) cs by simp
    show "\<forall>c'\<in>set rest. cache_lookup (at_lookup c') (cache ?s1) (hash_of c') = None"
      using assms(4) cs fresh by (simp add: cache_lookup_other)
    show "\<forall>c\<in>set rest. \<exists>a. backend c (payload c) = Inr a" using assms(6) cs by simp
  qed
  have nine: "nat (RATE_LIMIT - 1) = 9" by (simp add: RATE_LIMIT_def)
  have ten: "take 10 (c # rest) = c # take 9 rest"
    by (simp add: take_Cons')
  show ?thesis
    using step tail ok len by (simp add: cs split_beta nine ten)
qed

theorem eleventh_distinct_call_is_rejected_witness:
  "fst (run eleven_calls new_service) = replicate 10 (Inr fallback_analysis) @ [Inl rate_limit_error]"
proof -
  have len: "length eleven_calls = 11"
    by (simp add: eleven_calls_def)
  have empty: "rateLimiter new_service = Map.empty"
    by (simp add: new_service_def)
  have dist: "distinct (map hash_of eleven_calls)"
    unfolding eleven_hashes by simp
  have miss: "\<forall>c\<in>set eleven_calls. cache_lookup (at_lookup c) (cache new_service) (hash_of c) = None"
    by (simp add: cache_lookup_def new_service_def)
  have win: "\<forall>c\<in>set eleven_calls. at_limit c \<le> at_limit (hd eleven_calls) + 60000"
    by (simp add: eleven_calls_def call_at_def)
  have ok: "\<forall>c\<in>set eleven_calls. \<exists>a. backend c (payload c) = Inr a"
    by (simp add: eleven_calls_def call_at_def answering_def)
  have "map (\<lambda>c. backend c (payload c)) (take 10 eleven_calls) = replicate 10 (Inr fallback_analysis)"
    by (simp add: eleven_calls_def call_at_def answering_def numeral_eq_Suc)
  with eleventh_distinct_call_is_rejected [OF len empty dist miss win ok]
  show ?thesis by simp
qed

section \<open>The limiter never counts past the limit\<close>

lemma checkRateLimit_bounded:
  assumes "limiter_bounded rl"
  shows "limiter_bounded (snd (checkRateLimit now rl))"
proof -
  have swept: "limiter_bounded (clean_old (now - 60000) rl)"
    using assms unfolding limiter_bounded_def by (blast dest: clean_old_Some)
  show ?thesis
  proof (cases "clean_old (now - 60000) rl userKey")
    case None
    then show ?thesis
      using swept by (simp add: checkRateLimit_def limiter_bounded_def RATE_LIMIT_def)
  next
    case (Some e)
    then show ?thesis
      using swept by (auto simp: checkRateLimit_def limiter_bounded_def Let_def)
  qed
qed

lemma handle_bounded:
  assumes "limiter_bounded (rateLimiter s)"
  shows "limiter_bounded (rateLimiter (snd (handleContentAnalysis analyse t1 t2 t3 d s)))"
  using assms checkRateLimit_bounded [OF assms, of t2]
  by (auto simp: handleContentAnalysis_def Let_def split: option.splits prod.splits bool.splits sum.splits)

lemma run_bounded:
  "limiter_bounded (rateLimiter s) \<Longrightarrow> limiter_bounded (rateLimiter (snd (run cs s)))"
proof (induction cs arbitrary: s)
  case Nil
  then show ?case by simp
next
  case (Cons c cs)
  have "limiter_bounded (rateLimiter (snd (handle_call c s)))"
    unfolding handle_call_def using Cons.prems by (rule handle_bounded)
  from Cons.IH [OF this] show ?case by (simp add: split_beta)
qed

text \<open>
  C3: after any sequence of completed calls on a new service, whatever each call
  returned or threw, every entry of the rate limiter has \<open>count <= RATE_LIMIT\<close>. The
  states \<open>snd (run cs new_service)\<close> are the reachable ones, and \<open>handle_bounded\<close> above is
  the step: each call preserves the bound.
\<close>

theorem limiter_count_never_exceeds_limit:
  assumes "rateLimiter (snd (run cs new_service)) key = Some e"
  shows "count e \<le> RATE_LIMIT"
proof -
  have "limiter_bounded (rateLimiter new_service)"
    by (simp add: limiter_bounded_def new_service_def)
  then have "limiter_bounded (rateLimiter (snd (run cs new_service)))"
    by (rule run_bounded)
  with assms show ?thesis by (simp add: limiter_bounded_def)
qed

theorem limiter_count_never_exceeds_limit_witness:
  "rateLimiter (snd (run eleven_calls new_service)) userKey = Some \<lparr>timestamp = 0, count = 10\<rparr>
   \<and> count \<lparr>timestamp = 0, count = 10\<rparr> \<le> RATE_LIMIT"
proof -
  have "rateLimiter (snd (run eleven_calls new_service)) userKey = Some \<lparr>timestamp = 0, count = 10\<rparr>"
    by code_simp
  with limiter_count_never_exceeds_limit [of eleven_calls userKey "\<lparr>timestamp = 0, count = 10\<rparr>"]
  show ?thesis by simp
qed

section \<open>What a returned analysis looks like\<close>

lemma choose_sentiment_cases: "JString (choose_sentiment p n) \<in> sentiments"
  by (simp add: choose_sentiment_def sentiments_def)

lemma simulate_clamped: "clamped (simulateAIAnalysis m d)"
  by (simp add: clamped_def simulateAIAnalysis_def Let_def choose_sentiment_cases)

lemma clamped_well_formed: "clamped r \<Longrightarrow> well_formed r"
  by (simp add: clamped_def well_formed_def)

lemma selectBackend_simulation:
  assumes "isDevelopment env \<or> \<not> usable (backendUrl env) []"
    and "\<not> isDevelopment env \<or> \<not> usable (openaiKey env) (js ''sk-your-openai-api-key-here'')"
    and "\<not> isDevelopment env \<or> \<not> usable (anthropicKey env) (js ''your-anthropic-api-key-here'')"
  shows "selectBackend env net JSON_parse m = simulated m"
  using assms by (auto simp: selectBackend_def simulated_def fun_eq_iff)

lemma handle_simulated_clamped:
  assumes "cache_clamped (cache s)"
    and "handleContentAnalysis (simulated m) t1 t2 t3 d s = (res, s1)"
  shows "cache_clamped (cache s1) \<and> (\<forall>r. res = Inr r \<longrightarrow> clamped r)"
proof (cases "cache_lookup t1 (cache s) (generateContentHash (mainContent d))")
  case (Some hit)
  then obtain e where "cache s (generateContentHash (mainContent d)) = Some e" "c_data e = hit"
    by (auto simp: cache_lookup_def split: option.splits if_splits)
  with assms(1) have "clamped hit"
    unfolding cache_clamped_def by blast
  with handle_hit [OF Some, where analyse = "simulated m" and t_limit = t2 and t_store = t3] assms
  show ?thesis by auto
next
  case None
  obtain ok rl where chk: "checkRateLimit t2 (rateLimiter s) = (ok, rl)"
    by (cases "checkRateLimit t2 (rateLimiter s)")
  show ?thesis
  proof (cases ok)
    case False
    with handle_miss_rejected [OF None] chk assms show ?thesis by auto
  next
    case True
    have sim: "simulated m d = Inr (simulateAIAnalysis m d)" by (simp add: simulated_def)
    from handle_miss_stored [where analyse = "simulated m", OF None _ sim] chk True assms(2)
    have "res = Inr (simulateAIAnalysis m d)"
      and "cache s1 = (cache s)(generateContentHash (mainContent d) \<mapsto>
                        \<lparr>c_data = simulateAIAnalysis m d, c_timestamp = t3\<rparr>)"
      by auto
    with assms(1) simulate_clamped [of m d] show ?thesis
      by (auto simp: cache_clamped_def)
  qed
qed

lemma run_simulated_clamped:
  assumes "cache_clamped (cache s)"
    and "\<forall>c\<in>set cs. backend c = simulated m"
    and "Inr r \<in> set (fst (run cs s))"
  shows "clamped r"
  using assms
proof (induction cs arbitrary: s)
  case Nil
  then show ?case by simp
next
  case (Cons c cs)
  obtain res s1 where step: "handle_call c s = (res, s1)"
    by (cases "handle_call c s")
  have b: "backend c = simulated m" using Cons.prems(2) by simp
  from step have "handleContentAnalysis (simulated m) (at_lookup c) (at_limit c) (at_store c) (payload c) s
                    = (res, s1)"
    by (simp add: handle_call_def b)
  from handle_simulated_clamped [OF Cons.prems(1) this]
  have inv: "cache_clamped (cache s1)" and now: "\<forall>r. res = Inr r \<longrightarrow> clamped r"
    by simp_all
  from Cons.prems(3) step have "res = Inr r \<or> Inr r \<in> set (fst (run cs s1))"
    by (auto simp: split_beta)
  then show ?case
  proof
    assume "res = Inr r"
    with now show ?thesis by simp
  next
    assume "Inr r \<in> set (fst (run cs s1))"
    with Cons.IH [OF inv] Cons.prems(2) show ?thesis by simp
  qed
qed

text \<open>
  C9, as the code has it: when the backend of every call is the keyword simulation (the
  first service always; the second when the environment selects no remote service, see
  \<open>selectBackend_simulation\<close>), every analysis that \<open>handleContentAnalysis\<close> returns,
  fresh or from the cache, has its confidence in \<open>[0.3, 0.9]\<close>, inside \<open>[0, 1]\<close>, and
  its sentiment among \<open>positive\<close>, \<open>negative\<close>, \<open>neutral\<close>.
\<close>

theorem simulated_results_are_clamped:
  assumes "\<forall>c\<in>set cs. backend c = simulated m"
    and "Inr r \<in> set (fst (run cs new_service))"
  shows "well_formed r \<and> 3 / 10 \<le> confidence r \<and> confidence r \<le> 9 / 10"
proof -
  have "cache_clamped (cache new_service)"
    by (simp add: cache_clamped_def new_service_def)
  from run_simulated_clamped [OF this assms]
  show ?thesis by (simp add: well_formed_def clamped_def)
qed

theorem simulated_results_are_clamped_witness:
  "well_formed (simulateAIAnalysis plain_methods (page (js ''good good bad'')))
   \<and> 3 / 10 \<le> confidence (simulateAIAnalysis plain_methods (page (js ''good good bad'')))
   \<and> confidence (simulateAIAnalysis plain_methods (page (js ''good good bad''))) \<le> 9 / 10"
proof -
  have sim: "\<forall>c\<in>set [simulated_call]. backend c = simulated plain_methods"
    by (simp add: simulated_call_def)
  have ret: "Inr (simulateAIAnalysis plain_methods (page (js ''good good bad'')))
               \<in> set (fst (run [simulated_call] new_service))"
    by (simp add: simulated_call_def handle_call_def handleContentAnalysis_def cache_lookup_def
          new_service_def checkRateLimit_def clean_old_def simulated_def split_beta)
  from simulated_results_are_clamped [OF sim ret] show ?thesis .
qed

lemma simulated_example:
  "confidence (simulateAIAnalysis plain_methods (page (js ''good good bad''))) = 3 / 10
   \<and> sentiment (simulateAIAnalysis plain_methods (page (js ''good good bad''))) = JString (js ''positive'')"
  by (simp add: simulateAIAnalysis_def plain_methods_def page_def js_def keyword_count_def
        positive_keywords_def negative_keywords_def choose_sentiment_def split_length_def is_space_def)

lemma match_api_reply: "match_braces api_reply = Some api_reply"
  by (simp add: match_braces_def api_reply_def js_def)

lemma parse_api_reply:
  "parseAIResponse parse_reply api_reply =
     \<lparr>summary = JString (js ''Analysis completed''),
      sentiment = JString (js ''mixed''),
      keyInsights = [JString (js ''Analysis performed'')],
      confidence = 5,
      actionableItems = [JString (js ''Review results'')],
      categories = [JString (js ''General'')]\<rparr>"
  by (simp add: parseAIResponse_def match_api_reply parse_reply_def or_default_def number_or_def
        array_or_def) (simp add: js_def)

lemma select_development:
  "selectBackend development (replying api_reply) parse_reply plain_methods d
     = Inr (parseAIResponse parse_reply api_reply)"
  by (simp add: selectBackend_def development_def replying_def usable_def parsed_reply_def js_def)

text \<open>
  On the direct API paths the analysis is what \<open>parseAIResponse\<close> makes of the service's
  answer: a numeric \<open>confidence\<close> and a truthy \<open>sentiment\<close> are copied as they are. In
  development mode with an OpenAI key, the answer
  \<open>{"sentiment": "mixed", "confidence": 5}\<close> comes back from \<open>handleContentAnalysis\<close>
  with confidence 5 and sentiment \<open>mixed\<close>.
\<close>

theorem parsed_result_is_not_validated:
  "fst (handleContentAnalysis (selectBackend development (replying api_reply) parse_reply plain_methods)
          0 0 1500 (page (js ''hi'')) new_service)
     = Inr (parseAIResponse parse_reply api_reply)
   \<and> confidence (parseAIResponse parse_reply api_reply) = 5
   \<and> sentiment (parseAIResponse parse_reply api_reply) = JString (js ''mixed'')
   \<and> \<not> well_formed (parseAIResponse parse_reply api_reply)"
proof -
  have miss: "cache_lookup 0 (cache new_service) (generateContentHash (mainContent (page (js ''hi'')))) = None"
    by (simp add: cache_lookup_def new_service_def)
  have chk: "checkRateLimit 0 (rateLimiter new_service) = (True, [userKey \<mapsto> \<lparr>timestamp = 0, count = 1\<rparr>])"
    by (simp add: checkRateLimit_def clean_old_def new_service_def)
  have "fst (handleContentAnalysis (selectBackend development (replying api_reply) parse_reply plain_methods)
          0 0 1500 (page (js ''hi'')) new_service) = Inr (parseAIResponse parse_reply api_reply)"
    using handle_miss_stored [where analyse = "selectBackend development (replying api_reply) parse_reply plain_methods"
        and t_store = 1500, OF miss chk select_development]
    by simp
  moreover have "\<not> well_formed (parseAIResponse parse_reply api_reply)"
    by (simp add: parse_api_reply well_formed_def)
  ultimately show ?thesis
    by (simp add: parse_api_reply)
qed

text \<open>\<open>parseAIResponse\<close> does keep the range when the answer does: its own defaults (0.5,
  \<open>neutral\<close>, and the fallback record with 0.3) are in range.\<close>

lemma number_or_range:
  assumes "\<And>x. v = Some (JNumber x) \<Longrightarrow> 0 \<le> x \<and> x \<le> 1"
  shows "0 \<le> number_or v (1 / 2) \<and> number_or v (1 / 2) \<le> 1"
  using assms by (auto simp: number_or_def split: option.splits json.splits)

lemma or_default_sentiment:
  assumes "\<And>x. v = Some x \<Longrightarrow> truthy x \<Longrightarrow> x \<in> sentiments"
  shows "or_default v (JString (js ''neutral'')) \<in> sentiments"
  using assms by (auto simp: or_default_def sentiments_def split: option.splits)

lemma fallback_well_formed: "well_formed fallback_analysis"
  by (simp add: well_formed_def fallback_analysis_def sentiments_def)

lemma parseAIResponse_well_formed:
  assumes "\<And>text parsed x. JSON_parse text = Some parsed \<Longrightarrow>
             property parsed ''confidence'' = Some (JNumber x) \<Longrightarrow> 0 \<le> x \<and> x \<le> 1"
    and "\<And>text parsed v. JSON_parse text = Some parsed \<Longrightarrow>
             property parsed ''sentiment'' = Some v \<Longrightarrow> truthy v \<Longrightarrow> v \<in> sentiments"
  shows "well_formed (parseAIResponse JSON_parse response)"
proof (cases "match_braces response")
  case None
  then show ?thesis by (simp add: parseAIResponse_def fallback_well_formed)
next
  case (Some jsonMatch)
  show ?thesis
  proof (cases "JSON_parse jsonMatch")
    case None
    with Some show ?thesis by (simp add: parseAIResponse_def fallback_well_formed)
  next
    case parsed: (Some parsed)
    have c: "0 \<le> number_or (property parsed ''confidence'') (1 / 2)
           \<and> number_or (property parsed ''confidence'') (1 / 2) \<le> 1"
      using assms(1) [OF parsed] by (rule number_or_range)
    have s: "or_default (property parsed ''sentiment'') (JString (js ''neutral'')) \<in> sentiments"
      using assms(2) [OF parsed] by (rule or_default_sentiment)
    show ?thesis
      using Some parsed c s
      by (cases parsed) (use fallback_well_formed in \<open>simp_all add: parseAIResponse_def well_formed_def\<close>)
  qed
qed


end
